theory Spec2Isabelle
  imports Main
begin

section \<open>Command documents (src/models/CommandModel.js)\<close>

text \<open>
  A \<open>Date\<close> is its number of milliseconds since the epoch. A schema path without a
  default may be absent from a document (\<open>None\<close>). The field \<open>done\<close> of the schema is
  called \<open>cmd_done\<close> here and \<open>_id\<close> is called \<open>cid\<close>; \<open>createdAt\<close> and \<open>updatedAt\<close>
  come from the schema option \<open>timestamps: true\<close>.
\<close>

type_synonym date = int

datatype priority = Low | Normal | High

record payload =
  slot :: "int option"
  number :: "string option"
  timestamp :: "int option"
  requestedBy :: "string option"
  autoExecute :: bool
  priority :: priority

record callForwardingStatus =
  active :: "bool option"
  detectedAt :: "date option"
  confirmedAt :: "date option"

record command =
  cid :: string
  deviceId :: string
  action :: string
  payload :: payload
  cmd_done :: bool
  autoExecuted :: bool
  executedAt :: "date option"
  ussdCode :: "string option"
  executionMessage :: "string option"
  callForwardingStatus :: "callForwardingStatus option"
  createdAt :: date
  updatedAt :: date

text \<open>
  The Command collection. A query or an update on it is a promise that can reject
  (the database cannot be reached); \<open>reachable\<close> says whether the calls of the handler
  under consideration are answered.
\<close>

datatype error = StoreUnavailable | TypeError

record db =
  reachable :: bool
  docs :: "command list"

subsection \<open>The pending query of the registration handler (src/app.js, lines 199 to 201)\<close>

text \<open>
  \<open>Command.find({ deviceId, done: false }).sort({ createdAt: -1 }).limit(20)\<close>:
  the filter, the sort on \<open>createdAt\<close> descending, the limit. The database leaves the
  order of commands with the same creation time open; here they keep their store order.
\<close>

definition matches_pending :: "string \<Rightarrow> command \<Rightarrow> bool" where
  "matches_pending d c = (deviceId c = d \<and> cmd_done c = False)"

definition sort_newest_first :: "command list \<Rightarrow> command list" where
  "sort_newest_first cs = sort_key (\<lambda>c. - createdAt c) cs"

definition pendingCommands :: "command list \<Rightarrow> string \<Rightarrow> command list" where
  "pendingCommands cs d = take 20 (sort_newest_first (filter (matches_pending d) cs))"

definition find_pending :: "db \<Rightarrow> string \<Rightarrow> error + command list" where
  "find_pending b d =
     (if reachable b then Inr (pendingCommands (docs b) d) else Inl StoreUnavailable)"

subsection \<open>The update of the acknowledgment handler (src/app.js, lines 272 to 279)\<close>

text \<open>
  The fields of the \<open>command-ack\<close> message. \<open>commandId\<close>, \<open>error\<close>, \<open>deviceId\<close>,
  \<open>ussdCode\<close> and \<open>message\<close> may be absent; \<open>success\<close> is the boolean outcome.
\<close>

record ack =
  ack_commandId :: "string option"
  ack_success :: bool
  ack_error :: "string option"
  ack_deviceId :: "string option"
  ack_ussdCode :: "string option"
  ack_message :: "string option"

text \<open>JavaScript truthiness of a value that is a string or absent, and \<open>v || null\<close>.\<close>

definition truthy :: "string option \<Rightarrow> bool" where
  "truthy v = (case v of None \<Rightarrow> False | Some s \<Rightarrow> s \<noteq> [])"

definition or_null :: "string option \<Rightarrow> string option" where
  "or_null v = (if truthy v then v else None)"

text \<open>
  The update document
  \<open>{ done: success, error: error || null, executedAt: new Date(), ussdCode: ussdCode || null,
     executionMessage: message || null, updatedAt: new Date() }\<close>
  applied to a stored command. \<open>error\<close> is not a path of CommandSchema, so the stored
  document has no field for it; the two clock readings are the parameters \<open>t_exec\<close> and
  \<open>t_upd\<close>.
\<close>

definition ack_update :: "ack \<Rightarrow> date \<Rightarrow> date \<Rightarrow> command \<Rightarrow> command" where
  "ack_update a t_exec t_upd c =
     c\<lparr> cmd_done := ack_success a,
        executedAt := Some t_exec,
        ussdCode := or_null (ack_ussdCode a),
        executionMessage := or_null (ack_message a),
        updatedAt := t_upd \<rparr>"

text \<open>
  \<open>Command.findByIdAndUpdate(id, update, { new: true })\<close>: the first document with that
  \<open>_id\<close> is replaced by its update and returned; \<open>null\<close> when there is none. An id is
  the 24 digit form of an ObjectId; a string that is no such form is the id of no stored
  command, and the model treats it as an unknown id (the store rejects it instead, which
  the handler catches as it catches an unreachable store: nothing is written either way).
\<close>

fun update_first :: "string \<Rightarrow> (command \<Rightarrow> command) \<Rightarrow> command list \<Rightarrow> command list" where
  "update_first i f [] = []"
| "update_first i f (c # cs) = (if cid c = i then f c # cs else c # update_first i f cs)"

definition findByIdAndUpdate ::
  "db \<Rightarrow> string \<Rightarrow> (command \<Rightarrow> command) \<Rightarrow> error + (db \<times> command option)" where
  "findByIdAndUpdate b i f =
     (if reachable b
      then Inr (b\<lparr>docs := update_first i f (docs b)\<rparr>,
                map_option f (find (\<lambda>c. cid c = i) (docs b)))
      else Inl StoreUnavailable)"

section \<open>Connections and what a handler does (src/app.js, lines 139 to 304)\<close>

text \<open>
  A socket: its id, its rooms (a JavaScript \<open>Set\<close>, in insertion order),
  \<open>socket.data.deviceId\<close> and whether it is connected.
\<close>

record socket =
  sid :: string
  rooms :: "string list"
  data_deviceId :: "string option"
  connected :: bool

definition socket_leave :: "socket \<Rightarrow> string \<Rightarrow> socket" where
  "socket_leave s room = s\<lparr>rooms := removeAll room (rooms s)\<rparr>"

definition socket_join :: "socket \<Rightarrow> string \<Rightarrow> socket" where
  "socket_join s room =
     s\<lparr>rooms := (if room \<in> set (rooms s) then rooms s else rooms s @ [room])\<rparr>"

text \<open>
  The events sent to a device: \<open>error\<close> with its message, \<open>registered\<close>, \<open>command\<close> and
  \<open>call-forward-command\<close>, \<open>pong\<close> with its timestamp and socket id, and the \<open>ping\<close> of
  the keep-alive interval. Then the bodies of the timers the registration handler sets.
\<close>

record registrationData =
  reg_deviceId :: string
  reg_timestamp :: date
  reg_socketId :: string
  reg_rooms :: "string list"
  reg_success :: bool
  reg_message :: string

record delivery =
  cmd :: command
  urgent :: bool
  pending :: bool

datatype event =
    ErrorEv string
  | Registered registrationData
  | CommandEv delivery
  | CallForwardCommand delivery
  | Pong date string
  | PingEv

datatype timer =
    SendPending delivery
  | RoomVerification string

text \<open>The lines written with \<open>console.warn\<close> and \<open>console.error\<close>.\<close>

datatype log =
    InvalidRegistration string
  | FetchPendingError error
  | RoomVerificationFailed string
  | CommandNotFound string
  | AckError error
  | SocketError string

text \<open>
  What a handler does on its own socket, in program order: \<open>socket.emit\<close>,
  \<open>setTimeout\<close> with its delay in milliseconds, a warning or error line.
\<close>

datatype action =
    Emit event
  | SetTimeout nat timer
  | Log log

subsection \<open>register-device (lines 152 to 243)\<close>

text \<open>
  \<open>normalizeDeviceId\<close> is imported from helpers/deviceId.js; the handler takes it as the
  parameter \<open>norm\<close>. Its result is a string or no value, and \<open>!deviceId\<close> is the
  negation of \<open>truthy\<close>.
\<close>

definition leave_previous :: "socket \<Rightarrow> socket" where
  "leave_previous s =
     foldl (\<lambda>acc room. if room \<noteq> sid s then socket_leave acc room else acc) s (rooms s)"

definition schedule_pending :: "command list \<Rightarrow> action list" where
  "schedule_pending cs =
     map (\<lambda>(index, c). SetTimeout (index * 2000)
                          (SendPending \<lparr>cmd = c, urgent = True, pending = True\<rparr>))
         (enumerate 0 cs)"

definition dispatch_pending :: "db \<Rightarrow> string \<Rightarrow> action list" where
  "dispatch_pending b d =
     (case find_pending b d of
        Inr cs \<Rightarrow> schedule_pending cs
      | Inl err \<Rightarrow> [Log (FetchPendingError err)])"

definition register_device ::
  "(string \<Rightarrow> string option) \<Rightarrow> db \<Rightarrow> date \<Rightarrow> socket \<Rightarrow> string \<Rightarrow> socket \<times> action list" where
  "register_device norm b now s rawId =
     (case norm rawId of
        None \<Rightarrow> (s, [Log (InvalidRegistration rawId), Emit (ErrorEv ''Invalid device ID'')])
      | Some d \<Rightarrow>
          if d = [] then (s, [Log (InvalidRegistration rawId), Emit (ErrorEv ''Invalid device ID'')])
          else
            let s1 = leave_previous s;
                s2 = (socket_join s1 d)\<lparr>data_deviceId := Some d\<rparr>;
                registrationData =
                  \<lparr> reg_deviceId = d, reg_timestamp = now, reg_socketId = sid s2,
                    reg_rooms = rooms s2, reg_success = True,
                    reg_message = ''Successfully registered device '' @ d \<rparr>
            in (s2, [Emit (Registered registrationData)]
                     @ dispatch_pending b d
                     @ [SetTimeout 3000 (RoomVerification d)]))"

subsection \<open>command-ack (lines 260 to 290)\<close>

text \<open>
  The message is \<open>None\<close> when the event carries no object: the destructuring throws
  inside the \<open>try\<close> and the error is logged. The handler never emits. A document that
  was found and updated is reported with \<open>console.log\<close> only.
\<close>

definition command_ack :: "db \<Rightarrow> date \<Rightarrow> date \<Rightarrow> ack option \<Rightarrow> db \<times> action list" where
  "command_ack b t_exec t_upd data =
     (case data of
        None \<Rightarrow> (b, [Log (AckError TypeError)])
      | Some a \<Rightarrow>
          (case ack_commandId a of
             None \<Rightarrow> (b, [])
           | Some commandId \<Rightarrow>
               if commandId = [] then (b, [])
               else
                 (case findByIdAndUpdate b commandId (ack_update a t_exec t_upd) of
                    Inl err \<Rightarrow> (b, [Log (AckError err)])
                  | Inr (b', None) \<Rightarrow> (b', [Log (CommandNotFound commandId)])
                  | Inr (b', Some updatedCommand) \<Rightarrow> (b', []))))"

section \<open>The server: all connections and the store\<close>

record world =
  sockets :: "socket list"
  store :: db

text \<open>
  What happens to the server, each with the id of the socket concerned: the events
  \<open>register-device\<close>, \<open>command-ack\<close>, \<open>ping\<close>, \<open>error\<close> and \<open>disconnect\<close> received on
  a socket, a timer of a registration firing, and the keep-alive interval of a socket
  firing. The arrival of a new socket (lines 139 to 150) is not among them; the
  statements below hold from every state of the server.
\<close>

datatype input =
    RegisterDevice string string date
  | CommandAck string "ack option" date date
  | TimerFires string timer
  | Ping string date
  | OnError string string
  | Disconnect string
  | Heartbeat string

text \<open>\<open>io.in(d).fetchSockets()\<close>: the ids of the connections in room \<open>d\<close>.\<close>

definition membersOf :: "world \<Rightarrow> string \<Rightarrow> string list" where
  "membersOf w d = map sid (filter (\<lambda>s. d \<in> set (rooms s)) (sockets w))"

text \<open>
  The body of a timer set by the registration handler of socket \<open>i\<close>: the two emits of
  a pending command (lines 213 and 214), or the room verification (lines 225 to 242).
\<close>

definition fire :: "world \<Rightarrow> timer \<Rightarrow> action list" where
  "fire w t =
     (case t of
        SendPending dl \<Rightarrow> [Emit (CommandEv dl), Emit (CallForwardCommand dl)]
      | RoomVerification d \<Rightarrow>
          if membersOf w d = [] then [Log (RoomVerificationFailed d)] else [])"

text \<open>
  One event of the server. Every action of a handler is paired with the id of the
  socket the handler belongs to. An event for a socket id that is not connected to the
  server has no handler. The \<open>ping\<close> handler (lines 255 to 257) answers \<open>pong\<close>, the
  \<open>error\<close> handler (lines 250 to 252) logs, the keep-alive interval (lines 293 to 299)
  emits \<open>ping\<close> while the socket is connected. The \<open>disconnect\<close> handlers (lines 245 to
  248 and 301 to 303) write an information line and clear the interval; by then the
  transport has taken the socket out of its rooms and out of the server.
\<close>

definition step ::
  "(string \<Rightarrow> string option) \<Rightarrow> world \<Rightarrow> input \<Rightarrow> world \<times> (string \<times> action) list" where
  "step norm w inp =
     (case inp of
        RegisterDevice i rawId now \<Rightarrow>
          (case find (\<lambda>s. sid s = i) (sockets w) of
             None \<Rightarrow> (w, [])
           | Some s \<Rightarrow>
               let (s', acts) = register_device norm (store w) now s rawId
               in (w\<lparr>sockets := map (\<lambda>x. if sid x = i then s' else x) (sockets w)\<rparr>,
                   map (Pair i) acts))
      | CommandAck i data t_exec t_upd \<Rightarrow>
          (case find (\<lambda>s. sid s = i) (sockets w) of
             None \<Rightarrow> (w, [])
           | Some s \<Rightarrow>
               let (b', acts) = command_ack (store w) t_exec t_upd data
               in (w\<lparr>store := b'\<rparr>, map (Pair i) acts))
      | TimerFires i t \<Rightarrow> (w, map (Pair i) (fire w t))
      | Ping i now \<Rightarrow>
          (case find (\<lambda>s. sid s = i) (sockets w) of
             None \<Rightarrow> (w, [])
           | Some s \<Rightarrow> (w, [(i, Emit (Pong now (sid s)))]))
      | OnError i msg \<Rightarrow>
          (case find (\<lambda>s. sid s = i) (sockets w) of
             None \<Rightarrow> (w, [])
           | Some s \<Rightarrow> (w, [(i, Log (SocketError msg))]))
      | Disconnect i \<Rightarrow> (w\<lparr>sockets := filter (\<lambda>s. sid s \<noteq> i) (sockets w)\<rparr>, [])
      | Heartbeat i \<Rightarrow>
          (case find (\<lambda>s. sid s = i) (sockets w) of
             None \<Rightarrow> (w, [])
           | Some s \<Rightarrow> (w, if connected s then [(i, Emit PingEv)] else [])))"



text \<open>The events that reach connection \<open>i\<close> among the actions of a step.\<close>

definition received_by :: "string \<Rightarrow> (string \<times> action) list \<Rightarrow> event list" where
  "received_by i out =
     concat (map (\<lambda>(j, a). case a of Emit e \<Rightarrow> (if j = i then [e] else []) | _ \<Rightarrow> []) out)"

section \<open>The identity normalizer\<close>

text \<open>
  \<open>normalizeDeviceId\<close> is imported by src/app.js from helpers/deviceId.js, which is not
  among the sources. The specification gives \<open>normalize(raw: string) -> DeviceId | Invalid\<close>,
  failing on empty, whitespace-only or token-less input, pure, deterministic and
  idempotent, with \<open>"  Device-001 "\<close> and \<open>"device-001"\<close> resolving to the same canonical
  id and \<open>"a1"\<close> normalized to \<open>"A1"\<close>.
\<close>

text \<open>
  Modelled from the spec: the whitespace that surrounds a raw id (helpers/deviceId.js is
  missing): blank, tab, line feed, vertical tab, form feed, carriage return.
\<close>

definition is_space :: "char \<Rightarrow> bool" where
  "is_space c = (let n = (of_char c :: nat) in n = 32 \<or> (9 \<le> n \<and> n \<le> 13))"

text \<open>
  Modelled from the spec: the case folding of the missing normalizer, \<open>"a1"\<close> becoming
  \<open>"A1"\<close>: the letters a to z go to A to Z, every other character stays.
\<close>

definition to_upper :: "char \<Rightarrow> char" where
  "to_upper c =
     (let n = (of_char c :: nat)
      in if 97 \<le> n \<and> n \<le> 122 then char_of (n - 32) else c)"

text \<open>
  Modelled from the spec: the removal of leading and trailing whitespace by the missing
  normalizer, \<open>"  Device-001 "\<close> and \<open>"device-001"\<close> having the same canonical id.
\<close>

definition trim :: "string \<Rightarrow> string" where
  "trim s = rev (dropWhile is_space (rev (dropWhile is_space s)))"

text \<open>
  Modelled from the spec: \<open>normalizeDeviceId\<close> of the missing helpers/deviceId.js. The raw
  id is trimmed and put in upper case; it is Invalid (\<open>None\<close>) when nothing is left, that
  is when the raw id is empty, only whitespace, or holds no token.
\<close>

definition normalizeDeviceId :: "string \<Rightarrow> string option" where
  "normalizeDeviceId raw =
     (let t = map to_upper (trim raw) in if t = [] then None else Some t)"

section \<open>The state of a command in the words of the specification\<close>

text \<open>
  The specification speaks of \<open>state \<in> {pending, acknowledged, failed}\<close>; the stored
  document has \<open>done\<close> and \<open>executedAt\<close>. A command is acknowledged when \<open>done\<close> is true,
  pending when it is not done and was never executed, failed when it is not done and
  carries an execution time.
\<close>

datatype cmd_state = Pending | Acknowledged | Failed

definition state_of :: "command \<Rightarrow> cmd_state" where
  "state_of c =
     (if cmd_done c then Acknowledged
      else if executedAt c = None then Pending else Failed)"

section \<open>Concrete inputs\<close>

text \<open>The ids of the stored commands, ObjectIds in their 24 digit form.\<close>

abbreviation id_c0 :: string where "id_c0 \<equiv> ''650a1f3e9b7c4d2e8f6a0b10''"
abbreviation id_c1 :: string where "id_c1 \<equiv> ''650a1f3e9b7c4d2e8f6a0b11''"
abbreviation id_c2 :: string where "id_c2 \<equiv> ''650a1f3e9b7c4d2e8f6a0b12''"
abbreviation id_c3 :: string where "id_c3 \<equiv> ''650a1f3e9b7c4d2e8f6a0b13''"
abbreviation id_c7 :: string where "id_c7 \<equiv> ''650a1f3e9b7c4d2e8f6a0b17''"
abbreviation id_cx :: string where "id_cx \<equiv> ''650a1f3e9b7c4d2e8f6a0b1a''"

definition ex_payload :: payload where
  "ex_payload = \<lparr> slot = Some 1, number = Some ''*123#'', timestamp = None,
                   requestedBy = Some ''operator'', autoExecute = False, priority = Normal \<rparr>"

text \<open>A command as the operator path creates it: not done, never executed.\<close>

definition ex_cmd :: "string \<Rightarrow> string \<Rightarrow> date \<Rightarrow> command" where
  "ex_cmd i d t =
     \<lparr> cid = i, deviceId = d, action = ''EXEC_USSD'', payload = ex_payload,
       cmd_done = False, autoExecuted = False, executedAt = None, ussdCode = None,
       executionMessage = None, callForwardingStatus = None, createdAt = t, updatedAt = t \<rparr>"

definition ex_ack :: "string \<Rightarrow> bool \<Rightarrow> ack" where
  "ex_ack i ok =
     \<lparr> ack_commandId = Some i, ack_success = ok, ack_error = None,
       ack_deviceId = Some ''D1'', ack_ussdCode = None, ack_message = Some ''reported'' \<rparr>"

definition ex_socket :: "string \<Rightarrow> string list \<Rightarrow> string option \<Rightarrow> socket" where
  "ex_socket i rs d = \<lparr> sid = i, rooms = rs, data_deviceId = d, connected = True \<rparr>"

definition ex_db :: "command list \<Rightarrow> db" where
  "ex_db cs = \<lparr> reachable = True, docs = cs \<rparr>"

text \<open>
  Two connections, \<open>A\<close> already in the room of device \<open>D1\<close> and \<open>B\<close> in a stale
  room; the store holds three commands of \<open>D1\<close> that are not done, created at 10, 30
  and 20, one that is done, and one of another device.
\<close>

definition ex_world :: world where
  "ex_world =
     \<lparr> sockets = [ex_socket ''A'' [''A'', ''D1''] (Some ''D1''),
                  ex_socket ''B'' [''B'', ''X''] (Some ''X'')],
       store = ex_db [ex_cmd id_c3 ''D1'' 10, ex_cmd id_c1 ''D1'' 30,
                      (ex_cmd id_c0 ''D1'' 40)\<lparr>cmd_done := True, executedAt := Some 45\<rparr>,
                      ex_cmd id_cx ''D2'' 50, ex_cmd id_c2 ''D1'' 20] \<rparr>"

definition ex_world_down :: world where
  "ex_world_down = ex_world\<lparr>store := (store ex_world)\<lparr>reachable := False\<rparr>\<rparr>"

text \<open>A command of \<open>D1\<close> whose execution was reported as failed at 70.\<close>

definition ex_failed :: command where
  "ex_failed = ack_update (ex_ack id_c7 False) 70 70 (ex_cmd id_c7 ''D1'' 60)"

definition ex_world_failed :: world where
  "ex_world_failed =
     \<lparr> sockets = [ex_socket ''A'' [''A'', ''D1''] (Some ''D1''), ex_socket ''B'' [''B''] None],
       store = ex_db [ex_failed] \<rparr>"

text \<open>The commands that a list of actions schedules for delivery, in order.\<close>

definition scheduled_commands :: "action list \<Rightarrow> command list" where
  "scheduled_commands acts =
     concat (map (\<lambda>a. case a of SetTimeout n (SendPending dl) \<Rightarrow> [cmd dl] | _ \<Rightarrow> []) acts)"

text \<open>
  A store with a backlog: the command \<open>c7\<close> of \<open>D1\<close> created at 0, followed by
  twenty more commands of \<open>D1\<close> created at 1 to 20, none of them done. Their ids
  differ in the last two digits.
\<close>

definition hex_digit :: "nat \<Rightarrow> char" where
  "hex_digit k = ''0123456789abcdef'' ! (k mod 16)"

definition ex_id :: "nat \<Rightarrow> string" where
  "ex_id n = ''650a1f3e9b7c4d2e8f6a0c'' @ [hex_digit (n div 16), hex_digit n]"

definition ex_newer :: "command list" where
  "ex_newer = map (\<lambda>n. ex_cmd (ex_id n) ''D1'' (int n)) [1..<21]"

definition ex_db_full :: db where
  "ex_db_full = ex_db (ex_cmd id_c7 ''D1'' 0 # ex_newer)"

section \<open>Room membership after a registration\<close>

lemma leave_loop_rooms:
  "rooms (foldl (\<lambda>acc room. if room \<noteq> i then socket_leave acc room else acc) a xs)
     = filter (\<lambda>r. r = i \<or> r \<notin> set xs) (rooms a)"
proof (induction xs arbitrary: a)
  case Nil
  then show ?case by simp
next
  case (Cons x xs)
  show ?case
    by (auto simp: Cons.IH socket_leave_def removeAll_filter_not_eq intro!: filter_cong)
qed

lemma leave_loop_fields:
  "sid (foldl (\<lambda>acc room. if room \<noteq> i then socket_leave acc room else acc) a xs) = sid a \<and>
   connected (foldl (\<lambda>acc room. if room \<noteq> i then socket_leave acc room else acc) a xs)
     = connected a"
  by (induction xs arbitrary: a) (simp_all add: socket_leave_def)

lemma rooms_leave_previous: "rooms (leave_previous s) = filter (\<lambda>r. r = sid s) (rooms s)"
  unfolding leave_previous_def leave_loop_rooms by (rule filter_cong) auto

lemma sid_leave_previous [simp]: "sid (leave_previous s) = sid s"
  unfolding leave_previous_def by (simp add: leave_loop_fields)

lemma connected_leave_previous [simp]: "connected (leave_previous s) = connected s"
  unfolding leave_previous_def by (simp add: leave_loop_fields)

lemma register_invalid:
  "\<not> truthy (norm rawId) \<Longrightarrow>
   register_device norm b now s rawId
     = (s, [Log (InvalidRegistration rawId), Emit (ErrorEv ''Invalid device ID'')])"
  by (simp add: register_device_def truthy_def split: option.splits)

lemma register_valid:
  "norm rawId = Some d \<Longrightarrow> d \<noteq> [] \<Longrightarrow>
   register_device norm b now s rawId
     = ((socket_join (leave_previous s) d)\<lparr>data_deviceId := Some d\<rparr>,
        Emit (Registered \<lparr> reg_deviceId = d, reg_timestamp = now, reg_socketId = sid s,
                 reg_rooms = rooms (socket_join (leave_previous s) d), reg_success = True,
                 reg_message = ''Successfully registered device '' @ d \<rparr>)
        # dispatch_pending b d @ [SetTimeout 3000 (RoomVerification d)])"
  by (simp add: register_device_def Let_def socket_join_def)

lemma rooms_registered:
  "norm rawId = Some d \<Longrightarrow> d \<noteq> [] \<Longrightarrow>
   set (rooms (fst (register_device norm b now s rawId))) = (set (rooms s) \<inter> {sid s}) \<union> {d}"
  by (auto simp: register_valid socket_join_def rooms_leave_previous)

lemma sid_registered [simp]: "sid (fst (register_device norm b now s rawId)) = sid s"
  by (simp add: register_device_def Let_def socket_join_def split: option.splits)

lemma connected_registered [simp]:
  "connected (fst (register_device norm b now s rawId)) = connected s"
  by (simp add: register_device_def Let_def socket_join_def split: option.splits)

section \<open>A registration seen from the server\<close>

lemma find_sid: "find (\<lambda>s. sid s = i) xs = Some s \<Longrightarrow> sid s = i \<and> s \<in> set xs"
  by (induction xs) (auto split: if_splits)

lemma step_register:
  "find (\<lambda>s. sid s = i) (sockets w) = Some s \<Longrightarrow>
   step norm w (RegisterDevice i rawId now)
     = (w\<lparr>sockets := map (\<lambda>x. if sid x = i
                                then fst (register_device norm (store w) now s rawId) else x)
                          (sockets w)\<rparr>,
        map (Pair i) (snd (register_device norm (store w) now s rawId)))"
  by (simp add: step_def split_beta)

lemma member_after_update:
  "find (\<lambda>s. sid s = i) xs = Some s \<Longrightarrow> sid s' = i \<Longrightarrow>
   i \<in> set (membersOf \<lparr>sockets = map (\<lambda>x. if sid x = i then s' else x) xs, store = b\<rparr> r)
     \<longleftrightarrow> r \<in> set (rooms s')"
  by (induction xs) (auto simp: membersOf_def split: if_splits)

lemma member_after_register:
  assumes "find (\<lambda>s. sid s = i) (sockets w) = Some s"
  shows "i \<in> set (membersOf (fst (step norm w (RegisterDevice i rawId now))) r)
           \<longleftrightarrow> r \<in> set (rooms (fst (register_device norm (store w) now s rawId)))"
proof -
  have "sid s = i" using assms find_sid by fastforce
  then have e: "sid (fst (register_device norm (store w) now s rawId)) = i" by simp
  have "fst (step norm w (RegisterDevice i rawId now))
          = \<lparr>sockets = map (\<lambda>x. if sid x = i
                                 then fst (register_device norm (store w) now s rawId) else x)
                            (sockets w),
             store = store w\<rparr>"
    by (simp add: step_register [OF assms])
  then show ?thesis using member_after_update [OF assms e] by simp
qed

lemma find_after_update:
  "find (\<lambda>s. sid s = i) xs = Some s \<Longrightarrow> sid s' = i \<Longrightarrow>
   find (\<lambda>s. sid s = i) (map (\<lambda>x. if sid x = i then s' else x) xs) = Some s'"
  by (induction xs) (auto split: if_splits)

lemma find_after_register:
  assumes "find (\<lambda>s. sid s = i) (sockets w) = Some s"
  shows "find (\<lambda>s. sid s = i) (sockets (fst (step norm w (RegisterDevice i rawId now))))
           = Some (fst (register_device norm (store w) now s rawId))"
proof -
  have "sid s = i" using assms find_sid by fastforce
  then have e: "sid (fst (register_device norm (store w) now s rawId)) = i" by simp
  show ?thesis using find_after_update [OF assms e] by (simp add: step_register [OF assms])
qed

lemma update_unchanged:
  "find (\<lambda>s. sid s = i) xs = Some s \<Longrightarrow> distinct (map sid xs) \<Longrightarrow>
   map (\<lambda>x. if sid x = i then s else x) xs = xs"
proof (induction xs)
  case Nil
  then show ?case by simp
next
  case (Cons x xs)
  show ?case
  proof (cases "sid x = i")
    case True
    then have "x = s" using Cons.prems(1) by simp
    moreover have "\<forall>y \<in> set xs. sid y \<noteq> i" using Cons.prems(2) True by (fastforce simp: image_iff)
    then have "map (\<lambda>x. if sid x = i then s else x) xs = xs" by (simp add: map_idI)
    ultimately show ?thesis using True by simp
  next
    case False
    then show ?thesis using Cons by simp
  qed
qed

section \<open>What reaches a device\<close>

lemma received_by_Nil [simp]: "received_by j [] = []"
  by (simp add: received_by_def)

lemma received_by_Cons [simp]:
  "received_by j ((i, a) # out)
     = (case a of Emit e \<Rightarrow> (if i = j then [e] else []) | _ \<Rightarrow> []) @ received_by j out"
  by (simp add: received_by_def)

lemma received_by_append [simp]:
  "received_by j (out @ out') = received_by j out @ received_by j out'"
  by (simp add: received_by_def)

lemma received_by_Pair:
  "received_by j (map (Pair i) acts)
     = (if j = i then concat (map (\<lambda>a. case a of Emit e \<Rightarrow> [e] | _ \<Rightarrow> []) acts) else [])"
  by (induction acts) (auto simp: received_by_def split: action.splits)

lemma dispatch_no_emit:
  "concat (map (\<lambda>a. case a of Emit e \<Rightarrow> [e] | _ \<Rightarrow> []) (dispatch_pending b d)) = []"
  by (auto simp: dispatch_pending_def schedule_pending_def split: sum.splits)

lemma command_ack_no_emit:
  "concat (map (\<lambda>a. case a of Emit e \<Rightarrow> [e] | _ \<Rightarrow> []) (snd (command_ack b t t' data))) = []"
  by (auto simp: command_ack_def split: option.splits sum.splits prod.splits)

lemma error_only_invalid:
  assumes "ErrorEv m \<in> set (received_by j (snd (step norm w inp)))"
  shows "\<exists>rawId now. inp = RegisterDevice j rawId now \<and> \<not> truthy (norm rawId)"
proof (cases inp)
  case (RegisterDevice i rawId now)
  show ?thesis
  proof (cases "find (\<lambda>s. sid s = i) (sockets w)")
    case None
    then show ?thesis using assms RegisterDevice by (simp add: step_def received_by_def)
  next
    case (Some s)
    show ?thesis
    proof (cases "truthy (norm rawId)")
      case True
      then obtain d where d: "norm rawId = Some d" "d \<noteq> []"
        by (auto simp: truthy_def split: option.splits)
      show ?thesis using assms RegisterDevice
        by (simp add: step_register [OF Some] register_valid [of norm rawId d, OF d]
              received_by_Pair dispatch_no_emit split: if_splits)
    next
      case False
      then show ?thesis using assms RegisterDevice
        by (simp add: step_register [OF Some] register_invalid received_by_Pair split: if_splits)
    qed
  qed
next
  case (CommandAck i data t t')
  then show ?thesis using assms
    by (auto simp: step_def received_by_Pair command_ack_no_emit split_beta
             split: option.splits if_splits)
next
  case (TimerFires i t)
  then show ?thesis using assms
    by (auto simp: step_def received_by_Pair fire_def split: timer.splits if_splits)
next
  case (Ping i now)
  then show ?thesis using assms by (auto simp: step_def split: option.splits if_splits)
next
  case (OnError i msg)
  then show ?thesis using assms by (auto simp: step_def split: option.splits)
next
  case (Disconnect i)
  then show ?thesis using assms by (simp add: step_def)
next
  case (Heartbeat i)
  then show ?thesis using assms by (auto simp: step_def split: option.splits if_splits)
qed

section \<open>Applying an acknowledgment\<close>

lemma cid_ack_update [simp]: "cid (ack_update a t t' c) = cid c"
  by (simp add: ack_update_def)

lemma ack_update_twice [simp]:
  "ack_update a2 t2 t2' (ack_update a1 t1 t1' c) = ack_update a2 t2 t2' c"
  by (simp add: ack_update_def)

lemma update_first_twice:
  "(\<And>c. cid (f c) = cid c) \<Longrightarrow>
   update_first i g (update_first i f cs) = update_first i (\<lambda>c. g (f c)) cs"
  by (induction cs) auto

lemma find_update_first:
  "(\<And>c. cid (f c) = cid c) \<Longrightarrow>
   find (\<lambda>c. cid c = i) (update_first i f cs) = map_option f (find (\<lambda>c. cid c = i) cs)"
  by (induction cs) auto

lemma update_first_unknown:
  "find (\<lambda>c. cid c = i) cs = None \<Longrightarrow> update_first i f cs = cs"
  by (induction cs) (auto split: if_splits)

lemma update_first_frame:
  "(\<And>c. g (f c) = g c) \<Longrightarrow> map g (update_first i f cs) = map g cs"
  by (induction cs) auto

lemma length_update_first [simp]: "length (update_first i f cs) = length cs"
  by (induction cs) auto

lemma command_ack_known:
  assumes "reachable b" and "ack_commandId a = Some i" and "i \<noteq> []"
  shows "command_ack b t t' (Some a)
           = (b\<lparr>docs := update_first i (ack_update a t t') (docs b)\<rparr>,
              if find (\<lambda>c. cid c = i) (docs b) = None then [Log (CommandNotFound i)] else [])"
  using assms
  by (auto simp: command_ack_def findByIdAndUpdate_def split: option.splits)

lemma command_ack_unreachable:
  assumes "\<not> reachable b" and "ack_commandId a = Some i" and "i \<noteq> []"
  shows "command_ack b t t' (Some a) = (b, [Log (AckError StoreUnavailable)])"
  using assms
  by (auto simp: command_ack_def findByIdAndUpdate_def split: option.splits)

lemma command_ack_falsy:
  assumes "\<not> truthy (ack_commandId a)"
  shows "command_ack b t t' (Some a) = (b, [])"
  using assms
  by (auto simp: command_ack_def truthy_def split: option.splits)

lemma reachable_command_ack [simp]: "reachable (fst (command_ack b t t' data)) = reachable b"
  by (auto simp: command_ack_def findByIdAndUpdate_def split: option.splits sum.splits prod.splits if_splits)

lemma last_write_wins:
  assumes "ack_commandId a1 = ack_commandId a2"
  shows "fst (command_ack (fst (command_ack b t1 t1' (Some a1))) t2 t2' (Some a2))
           = fst (command_ack b t2 t2' (Some a2))
       \<and> snd (command_ack (fst (command_ack b t1 t1' (Some a1))) t2 t2' (Some a2))
           = snd (command_ack b t2 t2' (Some a2))"
proof (cases "truthy (ack_commandId a2)")
  case False
  then show ?thesis using assms by (simp add: command_ack_falsy)
next
  case True
  then obtain i where i: "ack_commandId a2 = Some i" "i \<noteq> []"
    by (auto simp: truthy_def split: option.splits)
  have i1: "ack_commandId a1 = Some i" using assms i by simp
  show ?thesis
  proof (cases "reachable b")
    case False
    then show ?thesis by (simp add: command_ack_unreachable [OF _ i] command_ack_unreachable [OF _ i1 i(2)])
  next
    case True
    then show ?thesis
      by (simp add: command_ack_known [OF _ i] command_ack_known [OF _ i1 i(2)]
            update_first_twice find_update_first)
  qed
qed

section \<open>The pending query and its schedule\<close>

lemma set_sort_newest_first [simp]: "set (sort_newest_first cs) = set cs"
  by (simp add: sort_newest_first_def)

lemma length_sort_newest_first [simp]: "length (sort_newest_first cs) = length cs"
  by (simp add: sort_newest_first_def)

lemma sorted_sort_newest_first:
  "sorted_wrt (\<lambda>x y. createdAt y \<le> createdAt x) (sort_newest_first cs)"
proof -
  have "sorted (map (\<lambda>c. - createdAt c) (sort_key (\<lambda>c. - createdAt c) cs))"
    by (rule sorted_sort_key)
  then show ?thesis by (simp add: sort_newest_first_def sorted_map)
qed

lemma length_pendingCommands: "length (pendingCommands cs d) \<le> 20"
  by (simp add: pendingCommands_def)

lemma set_pendingCommands_subset:
  "set (pendingCommands cs d) \<subseteq> {c \<in> set cs. matches_pending d c}"
proof -
  have "set (pendingCommands cs d) \<subseteq> set (sort_newest_first (filter (matches_pending d) cs))"
    unfolding pendingCommands_def by (rule set_take_subset)
  then show ?thesis by auto
qed

lemma sorted_pendingCommands:
  "sorted_wrt (\<lambda>x y. createdAt y \<le> createdAt x) (pendingCommands cs d)"
  unfolding pendingCommands_def by (rule sorted_wrt_take) (rule sorted_sort_newest_first)

lemma pendingCommands_all:
  "length (filter (matches_pending d) cs) \<le> 20 \<Longrightarrow>
   set (pendingCommands cs d) = {c \<in> set cs. matches_pending d c}"
  by (auto simp: pendingCommands_def)

lemma pendingCommands_newest:
  assumes "p \<in> set (pendingCommands cs d)" and "c \<in> set cs" and "matches_pending d c"
    and "c \<notin> set (pendingCommands cs d)"
  shows "createdAt c \<le> createdAt p"
proof -
  let ?xs = "sort_newest_first (filter (matches_pending d) cs)"
  have "sorted_wrt (\<lambda>x y. createdAt y \<le> createdAt x) (take 20 ?xs @ drop 20 ?xs)"
    using sorted_sort_newest_first by simp
  then have a: "\<forall>x \<in> set (take 20 ?xs). \<forall>y \<in> set (drop 20 ?xs). createdAt y \<le> createdAt x"
    unfolding sorted_wrt_append by blast
  have "c \<in> set (take 20 ?xs @ drop 20 ?xs)" using assms(2,3) by simp
  then have "c \<in> set (drop 20 ?xs)" using assms(4) unfolding pendingCommands_def set_append by blast
  then show ?thesis using a assms(1) unfolding pendingCommands_def by blast
qed

lemma length_schedule_pending [simp]: "length (schedule_pending cs) = length cs"
  by (simp add: schedule_pending_def)

lemma nth_schedule_pending:
  "k < length cs \<Longrightarrow>
   schedule_pending cs ! k
     = SetTimeout (k * 2000) (SendPending \<lparr>cmd = cs ! k, urgent = True, pending = True\<rparr>)"
  by (simp add: schedule_pending_def nth_enumerate_eq)

lemma in_schedule_pending:
  "c \<in> set cs \<Longrightarrow>
   \<exists>k < length cs. SetTimeout (k * 2000) (SendPending \<lparr>cmd = c, urgent = True, pending = True\<rparr>)
                     \<in> set (schedule_pending cs)"
proof -
  assume "c \<in> set cs"
  then obtain k where k: "k < length cs" "cs ! k = c" by (auto simp: in_set_conv_nth)
  then have "schedule_pending cs ! k \<in> set (schedule_pending cs)" by simp
  then show ?thesis using k nth_schedule_pending by force
qed

lemma dispatch_reachable:
  "reachable b \<Longrightarrow> dispatch_pending b d = schedule_pending (pendingCommands (docs b) d)"
  by (simp add: dispatch_pending_def find_pending_def)

section \<open>Normalizing twice\<close>

lemma is_space_to_upper [simp]: "is_space (to_upper c) = is_space c"
  by (auto simp: is_space_def to_upper_def Let_def)

lemma to_upper_idem [simp]: "to_upper (to_upper c) = to_upper c"
  by (auto simp: to_upper_def Let_def)

lemma dropWhile_space_upper:
  "dropWhile is_space (map to_upper xs) = map to_upper (dropWhile is_space xs)"
  by (simp add: dropWhile_map o_def)

lemma trim_upper: "trim (map to_upper xs) = map to_upper (trim xs)"
  by (simp add: trim_def dropWhile_space_upper rev_map)

lemma dropWhile_fixed: "xs = [] \<or> \<not> P (hd xs) \<Longrightarrow> dropWhile P xs = xs"
  by (cases xs) auto

lemma last_dropWhile: "dropWhile P xs \<noteq> [] \<Longrightarrow> last (dropWhile P xs) = last xs"
  by (induction xs) (auto split: if_splits)

lemma trim_idem: "trim (trim s) = trim s"
proof -
  let ?y = "dropWhile is_space s"
  let ?z = "dropWhile is_space (rev ?y)"
  have a: "dropWhile is_space (rev ?z) = rev ?z"
  proof (cases "?z = []")
    case True
    then have "rev ?z = []" by (simp only: rev.simps)
    then show ?thesis by (simp only: dropWhile.simps)
  next
    case False
    have ne: "?y \<noteq> []"
    proof
      assume "?y = []"
      then have "?z = []" by (simp only: rev.simps dropWhile.simps)
      with False show False by blast
    qed
    have "hd (rev ?z) = last ?z" using False by (simp add: hd_rev)
    also have "\<dots> = last (rev ?y)" using False by (rule last_dropWhile)
    also have "\<dots> = hd ?y" using ne by (simp add: last_rev)
    finally have "\<not> is_space (hd (rev ?z))" using ne hd_dropWhile by metis
    then show ?thesis by (simp add: dropWhile_fixed)
  qed
  have b: "dropWhile is_space ?z = ?z" by simp
  show ?thesis unfolding trim_def a by (simp add: b)
qed

lemma normalize_idem:
  assumes "normalizeDeviceId raw = Some d"
  shows "normalizeDeviceId d = Some d"
proof -
  have d: "d = map to_upper (trim raw)" "d \<noteq> []"
    using assms by (auto simp: normalizeDeviceId_def Let_def split: if_splits)
  have "map to_upper (trim d) = d"
    unfolding d(1) by (simp add: trim_upper trim_idem)
  then show ?thesis using d(2) by (simp add: normalizeDeviceId_def)
qed

section \<open>The state after an acknowledgment\<close>

lemma state_of_ack_update:
  "state_of (ack_update a t t' c) = (if ack_success a then Acknowledged else Failed)"
  by (simp add: state_of_def ack_update_def)

lemma update_first_same_image:
  "(\<And>c. g (f c) = g (f' c)) \<Longrightarrow> map g (update_first i f cs) = map g (update_first i f' cs)"
  by (induction cs) auto

lemma in_update_first:
  "find (\<lambda>c. cid c = i) cs = Some c \<Longrightarrow> f c \<in> set (update_first i f cs)"
  by (induction cs) (auto split: if_splits)

section \<open>At most one device room\<close>



section \<open>Who writes to the store\<close>

lemma command_ack_frame:
  "(\<And>c a t t'. g (ack_update a t t' c) = g c) \<Longrightarrow>
   map g (docs (fst (command_ack b t_exec t_upd data))) = map g (docs b)"
  by (auto simp: command_ack_def findByIdAndUpdate_def update_first_frame
           split: option.splits sum.splits if_splits)

lemma step_store:
  "store (fst (step norm w inp)) = store w
   \<or> (\<exists>i data t_exec t_upd. inp = CommandAck i data t_exec t_upd
         \<and> store (fst (step norm w inp)) = fst (command_ack (store w) t_exec t_upd data))"
  by (cases inp) (auto simp: step_def split_beta split: option.splits)

lemma step_frame:
  assumes "\<And>c a t t'. g (ack_update a t t' c) = g c"
  shows "map g (docs (store (fst (step norm w inp)))) = map g (docs (store w))"
  using step_store [of norm w inp] command_ack_frame [of g, OF assms] by auto

section \<open>The cap of the pending query\<close>

lemma newer_not_after:
  assumes "sorted_wrt (\<lambda>x y. createdAt y \<le> createdAt x) xs" and "k < length xs"
  shows "filter (\<lambda>x. createdAt (xs ! k) < createdAt x) (drop k xs) = []"
proof -
  have d: "drop k xs = xs ! k # drop (Suc k) xs" using assms(2) by (simp add: Cons_nth_drop_Suc)
  moreover have "sorted_wrt (\<lambda>x y. createdAt y \<le> createdAt x) (drop k xs)"
    using assms(1) by (rule sorted_wrt_drop)
  ultimately have "\<forall>y \<in> set (drop (Suc k) xs). createdAt y \<le> createdAt (xs ! k)" by simp
  then have "\<forall>y \<in> set (drop k xs). \<not> createdAt (xs ! k) < createdAt y"
    using d by auto
  then show ?thesis by (simp add: filter_empty_conv)
qed

lemma pendingCommands_excludes:
  assumes "20 \<le> length (filter (\<lambda>x. matches_pending d x \<and> createdAt c < createdAt x) cs)"
  shows "c \<notin> set (pendingCommands cs d)"
proof
  let ?xs = "sort_newest_first (filter (matches_pending d) cs)"
  let ?N = "\<lambda>x. createdAt c < createdAt x"
  assume "c \<in> set (pendingCommands cs d)"
  then have "c \<in> set (take 20 ?xs)" by (simp add: pendingCommands_def)
  then obtain k where k: "k < length (take 20 ?xs)" "take 20 ?xs ! k = c"
    by (auto simp: in_set_conv_nth)
  then have k20: "k < 20" and kl: "k < length ?xs" and kc: "?xs ! k = c" by auto
  have "filter ?N (drop k ?xs) = []"
    using newer_not_after [OF sorted_sort_newest_first kl] kc by simp
  then have "filter ?N ?xs = filter ?N (take k ?xs)"
    using append_take_drop_id [of k ?xs] filter_append [of ?N "take k ?xs" "drop k ?xs"] by simp
  then have "length (filter ?N ?xs) \<le> k"
    using length_filter_le [of ?N "take k ?xs"] by simp
  moreover have "length (filter ?N ?xs)
                   = length (filter (\<lambda>x. matches_pending d x \<and> createdAt c < createdAt x) cs)"
    by (simp add: sort_newest_first_def filter_sort conj_commute)
  ultimately show False using assms k20 by simp
qed

lemma schedule_pending_only:
  "SetTimeout n (SendPending \<lparr>cmd = c, urgent = u, pending = p\<rparr>) \<in> set (schedule_pending cs)
   \<Longrightarrow> c \<in> set cs"
  by (auto simp: schedule_pending_def in_set_enumerate_eq)

lemma scheduled_iff_in_query:
  assumes "norm rawId = Some d" and "d \<noteq> []" and "reachable b"
  shows "(\<exists>k < 20. SetTimeout (k * 2000) (SendPending \<lparr>cmd = c, urgent = True, pending = True\<rparr>)
                    \<in> set (snd (register_device norm b now s rawId)))
         \<longleftrightarrow> c \<in> set (pendingCommands (docs b) d)"
proof
  assume "\<exists>k < 20. SetTimeout (k * 2000) (SendPending \<lparr>cmd = c, urgent = True, pending = True\<rparr>)
                    \<in> set (snd (register_device norm b now s rawId))"
  then show "c \<in> set (pendingCommands (docs b) d)"
    by (auto simp: register_valid [of norm rawId d, OF assms(1,2)] dispatch_reachable [OF assms(3)]
             dest: schedule_pending_only)
next
  assume "c \<in> set (pendingCommands (docs b) d)"
  then obtain k where k: "k < length (pendingCommands (docs b) d)"
    "SetTimeout (k * 2000) (SendPending \<lparr>cmd = c, urgent = True, pending = True\<rparr>)
       \<in> set (schedule_pending (pendingCommands (docs b) d))"
    using in_schedule_pending by blast
  have "k < 20" using k(1) length_pendingCommands [of "docs b" d] by simp
  then show "\<exists>k < 20. SetTimeout (k * 2000)
                         (SendPending \<lparr>cmd = c, urgent = True, pending = True\<rparr>)
                    \<in> set (snd (register_device norm b now s rawId))"
    using k(2)
    by (auto simp: register_valid [of norm rawId d, OF assms(1,2)] dispatch_reachable [OF assms(3)])
qed

lemma scheduled_commands_enumerate:
  "scheduled_commands
     (map (\<lambda>(index, c). SetTimeout (index * 2000)
                           (SendPending \<lparr>cmd = c, urgent = True, pending = True\<rparr>))
          (enumerate n cs)) = cs"
  by (induction cs arbitrary: n) (simp_all add: scheduled_commands_def)

lemma scheduled_commands_registered:
  assumes "norm rawId = Some d" and "d \<noteq> []" and "reachable b"
  shows "scheduled_commands (snd (register_device norm b now s rawId)) = pendingCommands (docs b) d"
proof -
  have "scheduled_commands (schedule_pending (pendingCommands (docs b) d))
          = pendingCommands (docs b) d"
    unfolding schedule_pending_def by (rule scheduled_commands_enumerate)
  then show ?thesis
    by (simp add: register_valid [of norm rawId d, OF assms(1,2)] dispatch_reachable [OF assms(3)]
          scheduled_commands_def)
qed

section \<open>The claims\<close>

subsection \<open>C1: the same acknowledgment twice, and a different one\<close>

text \<open>
  Claim C1, as amended. For a stored command and a reachable store: applying an
  acknowledgment a second time leaves the store as one application at the time of the
  second call would, so every command has the same state after the second application
  as after the first (only \<open>executedAt\<close> and \<open>updatedAt\<close> take the later clock), and the
  second call logs no warning or error. The update is unconditional: after any
  acknowledgment \<open>a\<close>, an acknowledgment \<open>a'\<close> for the same command is accepted without
  complaint and the command is \<open>a'\<close> applied to the original, so its state is that of the
  last acknowledgment.
\<close>

theorem C1_reapplied_ack_and_last_write:
  assumes "reachable b"
    and "find (\<lambda>c. cid c = i) (docs b) = Some c"
    and "ack_commandId a = Some i" and "ack_commandId a' = Some i" and "i \<noteq> []"
  shows "fst (command_ack (fst (command_ack b t1 u1 (Some a))) t2 u2 (Some a))
           = fst (command_ack b t2 u2 (Some a))
       \<and> map state_of (docs (fst (command_ack (fst (command_ack b t1 u1 (Some a))) t2 u2 (Some a))))
           = map state_of (docs (fst (command_ack b t1 u1 (Some a))))
       \<and> snd (command_ack (fst (command_ack b t1 u1 (Some a))) t2 u2 (Some a)) = []
       \<and> find (\<lambda>c. cid c = i)
               (docs (fst (command_ack (fst (command_ack b t1 u1 (Some a))) t2 u2 (Some a'))))
           = Some (ack_update a' t2 u2 c)
       \<and> state_of (ack_update a' t2 u2 c) = (if ack_success a' then Acknowledged else Failed)
       \<and> snd (command_ack (fst (command_ack b t1 u1 (Some a))) t2 u2 (Some a')) = []"
proof -
  have 1: "fst (command_ack (fst (command_ack b t1 u1 (Some a))) t2 u2 (Some a))
           = fst (command_ack b t2 u2 (Some a))"
    using last_write_wins [of a a] by simp
  have 2: "map state_of
             (docs (fst (command_ack (fst (command_ack b t1 u1 (Some a))) t2 u2 (Some a))))
           = map state_of (docs (fst (command_ack b t1 u1 (Some a))))"
    unfolding 1 using assms(1)
    by (simp add: command_ack_known [OF assms(1,3,5)] state_of_ack_update
          update_first_same_image [of state_of "ack_update a t2 u2" "ack_update a t1 u1"])
  have k: "\<And>x. ack_commandId x = Some i \<Longrightarrow>
             command_ack (fst (command_ack b t1 u1 (Some a))) t2 u2 (Some x)
               = (b\<lparr>docs := update_first i (ack_update x t2 u2) (docs b)\<rparr>, [])"
    using assms(1,2,5)
    by (simp add: command_ack_known [OF assms(1,3,5)] command_ack_known
          update_first_twice find_update_first)
  have 4: "find (\<lambda>c. cid c = i)
               (docs (fst (command_ack (fst (command_ack b t1 u1 (Some a))) t2 u2 (Some a'))))
           = Some (ack_update a' t2 u2 c)"
    using assms(2) by (simp add: k [OF assms(4)] find_update_first)
  show ?thesis using 1 2 4 k [OF assms(3)] k [OF assms(4)] state_of_ack_update by simp
qed

text \<open>The command \<open>c1\<close> is acknowledged as executed at 100 and again at 200.\<close>

theorem C1_witness:
  "reachable (store ex_world)
   \<and> find (\<lambda>c. cid c = id_c1) (docs (store ex_world)) = Some (ex_cmd id_c1 ''D1'' 30)
   \<and> ack_commandId (ex_ack id_c1 True) = Some id_c1
   \<and> map state_of (docs (fst (command_ack (fst (command_ack (store ex_world) 100 100
                                                  (Some (ex_ack id_c1 True))))
                                       200 200 (Some (ex_ack id_c1 True)))))
       = map state_of (docs (fst (command_ack (store ex_world) 100 100
                                     (Some (ex_ack id_c1 True)))))
   \<and> snd (command_ack (fst (command_ack (store ex_world) 100 100 (Some (ex_ack id_c1 True))))
             200 200 (Some (ex_ack id_c1 True))) = []"
proof -
  have r: "reachable (store ex_world)" by (simp add: ex_world_def ex_db_def)
  have f: "find (\<lambda>c. cid c = id_c1) (docs (store ex_world)) = Some (ex_cmd id_c1 ''D1'' 30)"
    by (simp add: ex_world_def ex_db_def ex_cmd_def)
  have a: "ack_commandId (ex_ack id_c1 True) = Some id_c1" by (simp add: ex_ack_def)
  show ?thesis
    using r f a C1_reapplied_ack_and_last_write [OF r f a a, of 100 100 200 200] by blast
qed

text \<open>
  The claim as stated fails: \<open>c1\<close>, acknowledged as executed at 100, is overwritten by a
  failure report at 200 (accepted, nothing logged) and is then failed; and the second of
  two identical acknowledgments is not a no-op on the record, it moves \<open>executedAt\<close> from
  100 to 200.
\<close>

theorem C1_counterexample:
  "map state_of (docs (fst (command_ack (ex_db [ex_cmd id_c1 ''D1'' 30]) 100 100
                              (Some (ex_ack id_c1 True)))))
     = [Acknowledged]
   \<and> map state_of (docs (fst (command_ack (fst (command_ack (ex_db [ex_cmd id_c1 ''D1'' 30])
                                                  100 100 (Some (ex_ack id_c1 True))))
                                       200 200 (Some (ex_ack id_c1 False)))))
       = [Failed]
   \<and> snd (command_ack (fst (command_ack (ex_db [ex_cmd id_c1 ''D1'' 30])
                                100 100 (Some (ex_ack id_c1 True))))
             200 200 (Some (ex_ack id_c1 False))) = []
   \<and> map executedAt (docs (fst (command_ack (ex_db [ex_cmd id_c1 ''D1'' 30]) 100 100
                                  (Some (ex_ack id_c1 True)))))
       = [Some 100]
   \<and> map executedAt (docs (fst (command_ack (fst (command_ack (ex_db [ex_cmd id_c1 ''D1'' 30])
                                                   100 100 (Some (ex_ack id_c1 True))))
                                        200 200 (Some (ex_ack id_c1 True)))))
       = [Some 200]"
  by code_simp

subsection \<open>C2: what an acknowledgment sets\<close>

text \<open>
  Claim C2, as amended. For an acknowledgment that carries the id of a stored command,
  with the store reachable and whatever the state of the command before: the handler
  logs nothing and the stored command becomes the update of the old one, with \<open>done\<close>
  equal to \<open>success\<close> and \<open>executedAt\<close> set to the time of the call. Read as a state,
  \<open>success = true\<close> gives acknowledged and \<open>success = false\<close> gives failed, and neither
  is pending. Neither is terminal: the command may have been acknowledged or failed
  before, and the acknowledgment sets its state all the same. A failed command has
  \<open>done = false\<close>, like a pending one.
\<close>

theorem C2_ack_sets_state:
  assumes "reachable b"
    and "find (\<lambda>c. cid c = i) (docs b) = Some c"
    and "ack_commandId a = Some i" and "i \<noteq> []"
  shows "find (\<lambda>c. cid c = i) (docs (fst (command_ack b t u (Some a)))) = Some (ack_update a t u c)
       \<and> snd (command_ack b t u (Some a)) = []
       \<and> cmd_done (ack_update a t u c) = ack_success a
       \<and> executedAt (ack_update a t u c) = Some t
       \<and> state_of (ack_update a t u c) = (if ack_success a then Acknowledged else Failed)
       \<and> state_of (ack_update a t u c) \<noteq> Pending"
  using assms(2)
  by (simp add: command_ack_known [OF assms(1,3,4)] find_update_first state_of_ack_update)
     (simp add: ack_update_def)

text \<open>The done command \<open>c0\<close>, acknowledged before, receives a failure report at 100.\<close>

theorem C2_witness:
  "reachable (store ex_world)
   \<and> find (\<lambda>c. cid c = id_c0) (docs (store ex_world))
       = Some ((ex_cmd id_c0 ''D1'' 40)\<lparr>cmd_done := True, executedAt := Some 45\<rparr>)
   \<and> ack_commandId (ex_ack id_c0 False) = Some id_c0
   \<and> state_of ((ex_cmd id_c0 ''D1'' 40)\<lparr>cmd_done := True, executedAt := Some 45\<rparr>) = Acknowledged
   \<and> map_option state_of
         (find (\<lambda>c. cid c = id_c0)
            (docs (fst (command_ack (store ex_world) 100 101 (Some (ex_ack id_c0 False))))))
       = Some Failed"
proof -
  have r: "reachable (store ex_world)" by (simp add: ex_world_def ex_db_def)
  have f: "find (\<lambda>c. cid c = id_c0) (docs (store ex_world))
             = Some ((ex_cmd id_c0 ''D1'' 40)\<lparr>cmd_done := True, executedAt := Some 45\<rparr>)"
    by (simp add: ex_world_def ex_db_def ex_cmd_def)
  have a: "ack_commandId (ex_ack id_c0 False) = Some id_c0" by (simp add: ex_ack_def)
  have s: "state_of ((ex_cmd id_c0 ''D1'' 40)\<lparr>cmd_done := True, executedAt := Some 45\<rparr>)
             = Acknowledged"
    by (simp add: state_of_def)
  have k: "ack_success (ex_ack id_c0 False) = False" by (simp add: ex_ack_def)
  show ?thesis
    using r f a s k C2_ack_sets_state [OF r f a, of 100 101] by simp
qed

text \<open>
  The claim as stated fails: the command \<open>c1\<close>, reported as failed at 100, still has
  \<open>done = false\<close> and matches the pending query of its device, and a success report at
  200 takes it from failed to acknowledged; failed is not a terminal state.
\<close>

theorem C2_counterexample:
  "map state_of (docs (fst (command_ack (ex_db [ex_cmd id_c1 ''D1'' 30]) 100 100
                              (Some (ex_ack id_c1 False)))))
     = [Failed]
   \<and> map (matches_pending ''D1'')
         (docs (fst (command_ack (ex_db [ex_cmd id_c1 ''D1'' 30]) 100 100
                       (Some (ex_ack id_c1 False)))))
       = [True]
   \<and> map state_of (docs (fst (command_ack (fst (command_ack (ex_db [ex_cmd id_c1 ''D1'' 30])
                                                  100 100 (Some (ex_ack id_c1 False))))
                                       200 200 (Some (ex_ack id_c1 True)))))
       = [Acknowledged]"
  by code_simp

subsection \<open>C3: the dispatch of pending commands\<close>

text \<open>
  Claim C3, as amended. A register-device event of connection \<open>i\<close> with a valid id \<open>d\<close>,
  the store being reachable, emits \<open>registered\<close>, then sets one timer for each command of
  the query result in its order, then the room verification timer. The query result holds
  the commands with \<open>deviceId = d\<close> and \<open>done = false\<close> (those never acknowledged and
  also those reported as failed), all of them up to 20, newest first, and no stored
  command of that kind outside it is newer than one inside. The timer of the command at
  index \<open>k\<close> has the delay \<open>k * 2000\<close> ms, so the first is due at once and consecutive
  ones are due 2000 ms apart. When such a timer fires, the command goes out as \<open>command\<close> and as
  \<open>call-forward-command\<close> on the registering connection \<open>i\<close> alone: no other connection,
  in the room of \<open>d\<close> or not, receives anything from the registration or its timers.
\<close>

theorem C3_pending_dispatch:
  assumes "find (\<lambda>s. sid s = i) (sockets w) = Some s"
    and "norm rawId = Some d" and "d \<noteq> []"
    and "reachable (store w)"
  shows "(\<exists>rd. snd (step norm w (RegisterDevice i rawId now))
                = (i, Emit (Registered rd))
                  # map (Pair i) (schedule_pending (pendingCommands (docs (store w)) d))
                  @ [(i, SetTimeout 3000 (RoomVerification d))])
       \<and> (\<forall>k < length (pendingCommands (docs (store w)) d).
             schedule_pending (pendingCommands (docs (store w)) d) ! k
               = SetTimeout (k * 2000)
                   (SendPending \<lparr>cmd = pendingCommands (docs (store w)) d ! k,
                                  urgent = True, pending = True\<rparr>))
       \<and> length (pendingCommands (docs (store w)) d)
           = min 20 (length (filter (matches_pending d) (docs (store w))))
       \<and> sorted_wrt (\<lambda>x y. createdAt y \<le> createdAt x) (pendingCommands (docs (store w)) d)
       \<and> set (pendingCommands (docs (store w)) d)
           \<subseteq> {c \<in> set (docs (store w)). deviceId c = d \<and> cmd_done c = False}
       \<and> (\<forall>p \<in> set (pendingCommands (docs (store w)) d). \<forall>c \<in> set (docs (store w)).
             deviceId c = d \<and> cmd_done c = False \<and> c \<notin> set (pendingCommands (docs (store w)) d)
               \<longrightarrow> createdAt c \<le> createdAt p)
       \<and> (\<forall>j. j \<noteq> i \<longrightarrow> received_by j (snd (step norm w (RegisterDevice i rawId now))) = []
                          \<and> received_by j (snd (step norm w' (TimerFires i t))) = [])
       \<and> snd (step norm w' (TimerFires i (SendPending dl)))
           = [(i, Emit (CommandEv dl)), (i, Emit (CallForwardCommand dl))]"
proof -
  let ?P = "pendingCommands (docs (store w)) d"
  have A: "\<exists>rd. snd (step norm w (RegisterDevice i rawId now))
                = (i, Emit (Registered rd)) # map (Pair i) (schedule_pending ?P)
                  @ [(i, SetTimeout 3000 (RoomVerification d))]"
    using assms(4)
    by (simp add: step_register [OF assms(1)] register_valid [of norm rawId d, OF assms(2,3)]
          dispatch_reachable)
  have B: "\<forall>k < length ?P. schedule_pending ?P ! k
               = SetTimeout (k * 2000) (SendPending \<lparr>cmd = ?P ! k, urgent = True, pending = True\<rparr>)"
    by (simp add: nth_schedule_pending)
  have C: "set ?P \<subseteq> {c \<in> set (docs (store w)). deviceId c = d \<and> cmd_done c = False}"
    using set_pendingCommands_subset [of "docs (store w)" d] by (simp add: matches_pending_def)
  have D: "\<forall>p \<in> set ?P. \<forall>c \<in> set (docs (store w)).
             deviceId c = d \<and> cmd_done c = False \<and> c \<notin> set ?P \<longrightarrow> createdAt c \<le> createdAt p"
    using pendingCommands_newest [of _ "docs (store w)" d] by (simp add: matches_pending_def)
  have E: "\<forall>j. j \<noteq> i \<longrightarrow> received_by j (snd (step norm w (RegisterDevice i rawId now))) = []
                          \<and> received_by j (snd (step norm w' (TimerFires i t))) = []"
    by (simp add: step_register [OF assms(1)] received_by_Pair) (simp add: step_def received_by_Pair)
  have F: "snd (step norm w' (TimerFires i (SendPending dl)))
           = [(i, Emit (CommandEv dl)), (i, Emit (CallForwardCommand dl))]"
    by (simp add: step_def fire_def)
  have G: "length ?P = min 20 (length (filter (matches_pending d) (docs (store w))))"
    by (simp add: pendingCommands_def)
  show ?thesis
    using A B C D E F G sorted_pendingCommands [of "docs (store w)" d]
    by blast
qed

text \<open>
  Connection \<open>B\<close> registers as \<open>" d1 "\<close>: the three commands of \<open>D1\<close> that are not done,
  stored in the order 10, 30, 20 of their creation times, are scheduled as 30, 20, 10 at
  0, 2000 and 4000 ms.
\<close>

theorem C3_witness:
  "find (\<lambda>s. sid s = ''B'') (sockets ex_world) = Some (ex_socket ''B'' [''B'', ''X''] (Some ''X''))
   \<and> normalizeDeviceId '' d1 '' = Some ''D1''
   \<and> reachable (store ex_world)
   \<and> (\<exists>rd. snd (step normalizeDeviceId ex_world (RegisterDevice ''B'' '' d1 '' 100))
         = [(''B'', Emit (Registered rd)),
            (''B'', SetTimeout 0 (SendPending \<lparr>cmd = ex_cmd id_c1 ''D1'' 30,
                                              urgent = True, pending = True\<rparr>)),
            (''B'', SetTimeout 2000 (SendPending \<lparr>cmd = ex_cmd id_c2 ''D1'' 20,
                                                 urgent = True, pending = True\<rparr>)),
            (''B'', SetTimeout 4000 (SendPending \<lparr>cmd = ex_cmd id_c3 ''D1'' 10,
                                                 urgent = True, pending = True\<rparr>)),
            (''B'', SetTimeout 3000 (RoomVerification ''D1''))])"
proof -
  have f: "find (\<lambda>s. sid s = ''B'') (sockets ex_world) = Some (ex_socket ''B'' [''B'', ''X''] (Some ''X''))"
    by (simp add: ex_world_def ex_socket_def)
  have n: "normalizeDeviceId '' d1 '' = Some ''D1''" by code_simp
  have r: "reachable (store ex_world)" by (simp add: ex_world_def ex_db_def)
  have p: "pendingCommands (docs (store ex_world)) ''D1''
             = [ex_cmd id_c1 ''D1'' 30, ex_cmd id_c2 ''D1'' 20, ex_cmd id_c3 ''D1'' 10]"
    by code_simp
  have s: "\<And>a b c. schedule_pending [a, b, c]
             = [SetTimeout 0 (SendPending \<lparr>cmd = a, urgent = True, pending = True\<rparr>),
                SetTimeout 2000 (SendPending \<lparr>cmd = b, urgent = True, pending = True\<rparr>),
                SetTimeout 4000 (SendPending \<lparr>cmd = c, urgent = True, pending = True\<rparr>)]"
    by (simp add: schedule_pending_def)
  have "\<exists>rd. snd (step normalizeDeviceId ex_world (RegisterDevice ''B'' '' d1 '' 100))
                = (''B'', Emit (Registered rd))
                  # map (Pair ''B'') (schedule_pending (pendingCommands (docs (store ex_world)) ''D1''))
                  @ [(''B'', SetTimeout 3000 (RoomVerification ''D1''))]"
    using C3_pending_dispatch [where norm = normalizeDeviceId, OF f n _ r, of 100] by simp
  then show ?thesis using f n r by (simp add: p s)
qed

text \<open>
  The claim as stated fails. Connection \<open>A\<close> is in the room of \<open>D1\<close> and the store holds
  one command of \<open>D1\<close>, reported as failed and so not pending. When \<open>B\<close> registers as
  \<open>" d1 "\<close>, both are members of the room, the failed command is scheduled, and when its
  timer fires the two events go to \<open>B\<close>; \<open>A\<close> receives nothing, neither from the
  registration nor from the timer.
\<close>

theorem C3_counterexample:
  "state_of ex_failed = Failed
   \<and> membersOf (fst (step normalizeDeviceId ex_world_failed
                          (RegisterDevice ''B'' '' d1 '' 100))) ''D1'' = [''A'', ''B'']
   \<and> snd (step normalizeDeviceId ex_world_failed (RegisterDevice ''B'' '' d1 '' 100))
       = [(''B'', Emit (Registered \<lparr> reg_deviceId = ''D1'', reg_timestamp = 100,
                                       reg_socketId = ''B'', reg_rooms = [''B'', ''D1''],
                                       reg_success = True,
                                       reg_message = ''Successfully registered device D1'' \<rparr>)),
          (''B'', SetTimeout 0 (SendPending \<lparr>cmd = ex_failed, urgent = True, pending = True\<rparr>)),
          (''B'', SetTimeout 3000 (RoomVerification ''D1''))]
   \<and> received_by ''A'' (snd (step normalizeDeviceId ex_world_failed
                                 (RegisterDevice ''B'' '' d1 '' 100))) = []
   \<and> received_by ''A''
         (snd (step normalizeDeviceId
                 (fst (step normalizeDeviceId ex_world_failed (RegisterDevice ''B'' '' d1 '' 100)))
                 (TimerFires ''B'' (SendPending \<lparr>cmd = ex_failed, urgent = True, pending = True\<rparr>))))
       = []
   \<and> received_by ''B''
         (snd (step normalizeDeviceId
                 (fst (step normalizeDeviceId ex_world_failed (RegisterDevice ''B'' '' d1 '' 100)))
                 (TimerFires ''B'' (SendPending \<lparr>cmd = ex_failed, urgent = True, pending = True\<rparr>))))
       = [CommandEv \<lparr>cmd = ex_failed, urgent = True, pending = True\<rparr>,
          CallForwardCommand \<lparr>cmd = ex_failed, urgent = True, pending = True\<rparr>]"
  by code_simp

subsection \<open>C4: the pending query fails\<close>

text \<open>
  Claim C4. When a register-device event carries a valid id and the query for the pending
  commands fails, only the dispatch is lost: the connection is a member of the device's
  room, the \<open>registered\<close> confirmation is the one event emitted, the failure is logged and
  not shown to the device, no pending command is scheduled (the room verification timer
  still is), and the connection is still there, connected as before.
\<close>

theorem C4_query_failure_keeps_registration:
  assumes "find (\<lambda>s. sid s = i) (sockets w) = Some s"
    and "norm rawId = Some d" and "d \<noteq> []"
    and "\<not> reachable (store w)"
  shows "i \<in> set (membersOf (fst (step norm w (RegisterDevice i rawId now))) d)
       \<and> (\<exists>rd. reg_deviceId rd = d \<and> reg_success rd \<and>
               snd (step norm w (RegisterDevice i rawId now))
                 = [(i, Emit (Registered rd)),
                    (i, Log (FetchPendingError StoreUnavailable)),
                    (i, SetTimeout 3000 (RoomVerification d))])
       \<and> map sid (sockets (fst (step norm w (RegisterDevice i rawId now)))) = map sid (sockets w)
       \<and> (\<exists>s'. find (\<lambda>s. sid s = i) (sockets (fst (step norm w (RegisterDevice i rawId now))))
                  = Some s'
               \<and> connected s' = connected s)"
proof -
  have "i \<in> set (membersOf (fst (step norm w (RegisterDevice i rawId now))) d)"
    using member_after_register [OF assms(1)] rooms_registered [of norm rawId d, OF assms(2,3)]
    by simp
  moreover have "snd (step norm w (RegisterDevice i rawId now))
     = [(i, Emit (Registered \<lparr> reg_deviceId = d, reg_timestamp = now, reg_socketId = sid s,
                 reg_rooms = rooms (socket_join (leave_previous s) d), reg_success = True,
                 reg_message = ''Successfully registered device '' @ d \<rparr>)),
        (i, Log (FetchPendingError StoreUnavailable)),
        (i, SetTimeout 3000 (RoomVerification d))]"
    using assms(4)
    by (simp add: step_register [OF assms(1)] register_valid [of norm rawId d, OF assms(2,3)]
          dispatch_pending_def find_pending_def)
  moreover have "sid s = i" using assms(1) find_sid by fastforce
  then have "map sid (sockets (fst (step norm w (RegisterDevice i rawId now))))
               = map sid (sockets w)"
    by (simp add: step_register [OF assms(1)] o_def cong: map_cong)
  moreover have "\<exists>s'. find (\<lambda>s. sid s = i)
                          (sockets (fst (step norm w (RegisterDevice i rawId now)))) = Some s'
               \<and> connected s' = connected s"
    by (simp add: find_after_register [OF assms(1)])
  ultimately show ?thesis by auto
qed

text \<open>Connection \<open>B\<close> registers as \<open>" d1 "\<close> while the store cannot be reached.\<close>

theorem C4_witness:
  "find (\<lambda>s. sid s = ''B'') (sockets ex_world_down) = Some (ex_socket ''B'' [''B'', ''X''] (Some ''X''))
   \<and> normalizeDeviceId '' d1 '' = Some ''D1''
   \<and> \<not> reachable (store ex_world_down)
   \<and> ''B'' \<in> set (membersOf (fst (step normalizeDeviceId ex_world_down
                                      (RegisterDevice ''B'' '' d1 '' 100))) ''D1'')
   \<and> received_by ''B'' (snd (step normalizeDeviceId ex_world_down
                                 (RegisterDevice ''B'' '' d1 '' 100)))
       = [Registered \<lparr> reg_deviceId = ''D1'', reg_timestamp = 100, reg_socketId = ''B'',
                        reg_rooms = [''B'', ''D1''], reg_success = True,
                        reg_message = ''Successfully registered device D1'' \<rparr>]"
proof -
  have f: "find (\<lambda>s. sid s = ''B'') (sockets ex_world_down)
             = Some (ex_socket ''B'' [''B'', ''X''] (Some ''X''))"
    by (simp add: ex_world_down_def ex_world_def ex_socket_def)
  have n: "normalizeDeviceId '' d1 '' = Some ''D1''" by code_simp
  have r: "\<not> reachable (store ex_world_down)" by (simp add: ex_world_down_def)
  have m: "''B'' \<in> set (membersOf (fst (step normalizeDeviceId ex_world_down
                                      (RegisterDevice ''B'' '' d1 '' 100))) ''D1'')"
    using C4_query_failure_keeps_registration [where norm = normalizeDeviceId, OF f n _ r]
    by simp
  have e: "received_by ''B'' (snd (step normalizeDeviceId ex_world_down
                                 (RegisterDevice ''B'' '' d1 '' 100)))
       = [Registered \<lparr> reg_deviceId = ''D1'', reg_timestamp = 100, reg_socketId = ''B'',
                        reg_rooms = [''B'', ''D1''], reg_success = True,
                        reg_message = ''Successfully registered device D1'' \<rparr>]"
    by code_simp
  show ?thesis using f n r m e by simp
qed

subsection \<open>C5: a raw id that fails normalization\<close>

text \<open>
  Claim C5. When the raw id of a register-device event fails normalization (the
  normalizer returns no id or an empty one), the server is unchanged (no room is left or
  joined, the connection stays, the store is untouched), no timer is set (no dispatch),
  and the connection receives the one event \<open>error\<close> with the message "Invalid device
  ID". This is the only failure shown to a device: whatever the server state and the
  event (a registration, an acknowledgment, a timer, a ping, an error, a disconnect, the
  keep-alive), an \<open>error\<close> event reaches a connection only from a register-device event
  of that connection whose raw id fails normalization.
\<close>

theorem C5_invalid_registration:
  assumes "find (\<lambda>s. sid s = i) (sockets w) = Some s"
    and "distinct (map sid (sockets w))"
    and "\<not> truthy (norm rawId)"
  shows "step norm w (RegisterDevice i rawId now)
           = (w, [(i, Log (InvalidRegistration rawId)), (i, Emit (ErrorEv ''Invalid device ID''))])
       \<and> (\<forall>j m inp. ErrorEv m \<in> set (received_by j (snd (step norm w' inp))) \<longrightarrow>
             (\<exists>raw t. inp = RegisterDevice j raw t \<and> \<not> truthy (norm raw)))"
proof -
  have "step norm w (RegisterDevice i rawId now)
          = (w, [(i, Log (InvalidRegistration rawId)), (i, Emit (ErrorEv ''Invalid device ID''))])"
    using assms by (simp add: step_register [OF assms(1)] register_invalid update_unchanged)
  then show ?thesis using error_only_invalid by blast
qed

text \<open>Connection \<open>B\<close> registers with a raw id of three blanks.\<close>

theorem C5_witness:
  "find (\<lambda>s. sid s = ''B'') (sockets ex_world) = Some (ex_socket ''B'' [''B'', ''X''] (Some ''X''))
   \<and> distinct (map sid (sockets ex_world))
   \<and> \<not> truthy (normalizeDeviceId ''   '')
   \<and> step normalizeDeviceId ex_world (RegisterDevice ''B'' ''   '' 100)
       = (ex_world, [(''B'', Log (InvalidRegistration ''   '')),
                     (''B'', Emit (ErrorEv ''Invalid device ID''))])"
proof -
  have f: "find (\<lambda>s. sid s = ''B'') (sockets ex_world) = Some (ex_socket ''B'' [''B'', ''X''] (Some ''X''))"
    by (simp add: ex_world_def ex_socket_def)
  have d: "distinct (map sid (sockets ex_world))" by (simp add: ex_world_def ex_socket_def)
  have n: "\<not> truthy (normalizeDeviceId ''   '')" by code_simp
  show ?thesis
    using f d n C5_invalid_registration [where norm = normalizeDeviceId, OF f d n, of 100 ex_world]
    by simp
qed

subsection \<open>C6: re-registration migrates room membership\<close>



subsection \<open>C7: what is written to a command\<close>

text \<open>
  Claim C7. Only a command-ack event writes to the store: every other event of the
  server, among them a registration with the dispatch it schedules and the firing of a
  timer that delivers a pending command, leaves the store as it is, so a delivered
  command keeps its stored state. And whatever the event, a command-ack included, the
  \<open>_id\<close>, \<open>deviceId\<close>, \<open>action\<close>, \<open>payload\<close> and \<open>createdAt\<close> of every stored command stay
  as they are, as do \<open>autoExecuted\<close> and \<open>callForwardingStatus\<close>, and no command is added
  or removed; what a command-ack writes is \<open>done\<close>, \<open>executedAt\<close>, \<open>ussdCode\<close>,
  \<open>executionMessage\<close> and \<open>updatedAt\<close>.
\<close>

theorem C7_only_acks_write_status_fields:
  "((\<forall>i data t_exec t_upd. inp \<noteq> CommandAck i data t_exec t_upd)
      \<longrightarrow> store (fst (step norm w inp)) = store w)
   \<and> map (\<lambda>c. (cid c, deviceId c, action c, payload c, createdAt c))
         (docs (store (fst (step norm w inp))))
       = map (\<lambda>c. (cid c, deviceId c, action c, payload c, createdAt c)) (docs (store w))
   \<and> map autoExecuted (docs (store (fst (step norm w inp)))) = map autoExecuted (docs (store w))
   \<and> map callForwardingStatus (docs (store (fst (step norm w inp))))
       = map callForwardingStatus (docs (store w))"
proof -
  have 1: "(\<forall>i data t_exec t_upd. inp \<noteq> CommandAck i data t_exec t_upd)
             \<longrightarrow> store (fst (step norm w inp)) = store w"
    using step_store [of norm w inp] by auto
  have 2: "map (\<lambda>c. (cid c, deviceId c, action c, payload c, createdAt c))
             (docs (store (fst (step norm w inp))))
           = map (\<lambda>c. (cid c, deviceId c, action c, payload c, createdAt c)) (docs (store w))"
    by (rule step_frame) (simp add: ack_update_def)
  have 3: "map autoExecuted (docs (store (fst (step norm w inp))))
             = map autoExecuted (docs (store w))"
    by (rule step_frame) (simp add: ack_update_def)
  have 4: "map callForwardingStatus (docs (store (fst (step norm w inp))))
             = map callForwardingStatus (docs (store w))"
    by (rule step_frame) (simp add: ack_update_def)
  show ?thesis using 1 2 3 4 by simp
qed

text \<open>
  Connection \<open>B\<close> registers as \<open>" d1 "\<close> and the timer of the command \<open>c1\<close> fires: the
  store is the same after both, and \<open>c1\<close> is still not done and never executed.
\<close>

theorem C7_witness:
  "store (fst (step normalizeDeviceId ex_world (RegisterDevice ''B'' '' d1 '' 100)))
     = store ex_world
   \<and> store (fst (step normalizeDeviceId
                    (fst (step normalizeDeviceId ex_world (RegisterDevice ''B'' '' d1 '' 100)))
                    (TimerFires ''B'' (SendPending \<lparr>cmd = ex_cmd id_c1 ''D1'' 30,
                                                     urgent = True, pending = True\<rparr>))))
       = store ex_world
   \<and> find (\<lambda>c. cid c = id_c1) (docs (store ex_world)) = Some (ex_cmd id_c1 ''D1'' 30)
   \<and> state_of (ex_cmd id_c1 ''D1'' 30) = Pending"
proof -
  let ?w1 = "fst (step normalizeDeviceId ex_world (RegisterDevice ''B'' '' d1 '' 100))"
  let ?t = "TimerFires ''B'' (SendPending \<lparr>cmd = ex_cmd id_c1 ''D1'' 30,
                                              urgent = True, pending = True\<rparr>)"
  have 1: "store ?w1 = store ex_world"
    using C7_only_acks_write_status_fields
            [of "RegisterDevice ''B'' '' d1 '' 100" normalizeDeviceId ex_world]
    by simp
  have 2: "store (fst (step normalizeDeviceId ?w1 ?t)) = store ?w1"
    using C7_only_acks_write_status_fields [of ?t normalizeDeviceId ?w1] by simp
  have 3: "find (\<lambda>c. cid c = id_c1) (docs (store ex_world)) = Some (ex_cmd id_c1 ''D1'' 30)"
    by (simp add: ex_world_def ex_db_def ex_cmd_def)
  have 4: "state_of (ex_cmd id_c1 ''D1'' 30) = Pending"
    by (simp add: state_of_def ex_cmd_def)
  show ?thesis using 1 2 3 4 by simp
qed

subsection \<open>C8: normalizing twice\<close>

text \<open>
  Claim C8, against the normalizer modelled from the specification. A raw id that
  normalizes to \<open>d\<close> has \<open>d\<close> as a fixed point: normalizing \<open>d\<close> again gives the same
  result as normalizing the raw id. The normalizer is a function of the raw id alone, and
  \<open>"  Device-001 "\<close> and \<open>"device-001"\<close> have the same canonical id, while an empty or
  blank raw id has none.
\<close>

theorem C8_normalize_idempotent:
  "(normalizeDeviceId raw = Some d \<longrightarrow> normalizeDeviceId d = normalizeDeviceId raw)
   \<and> normalizeDeviceId ''  Device-001 '' = normalizeDeviceId ''device-001''
   \<and> normalizeDeviceId ''device-001'' = Some ''DEVICE-001''
   \<and> normalizeDeviceId [] = None \<and> normalizeDeviceId ''   '' = None"
proof -
  have "normalizeDeviceId raw = Some d \<longrightarrow> normalizeDeviceId d = normalizeDeviceId raw"
    using normalize_idem by simp
  moreover have "normalizeDeviceId ''  Device-001 '' = Some ''DEVICE-001''" by code_simp
  moreover have "normalizeDeviceId ''device-001'' = Some ''DEVICE-001''" by code_simp
  moreover have "normalizeDeviceId [] = None" by code_simp
  moreover have "normalizeDeviceId ''   '' = None" by code_simp
  ultimately show ?thesis by simp
qed

text \<open>The raw id \<open>"  Device-001 "\<close> and its canonical form.\<close>

theorem C8_witness:
  "normalizeDeviceId ''  Device-001 '' = Some ''DEVICE-001''
   \<and> normalizeDeviceId ''DEVICE-001'' = normalizeDeviceId ''  Device-001 ''"
proof -
  have h: "normalizeDeviceId ''  Device-001 '' = Some ''DEVICE-001''" by code_simp
  show ?thesis
    using h C8_normalize_idempotent [of "''  Device-001 ''" "''DEVICE-001''"] by simp
qed

subsection \<open>C9: a command reported as failed stays in the pending query\<close>

text \<open>
  Claim C9, as amended. After an acknowledgment with \<open>success = false\<close> for a stored
  command (the store being reachable), the stored command has \<open>done = false\<close> and
  satisfies the filter of the pending query of its device: it is failed and not excluded
  as terminal. At the next registration of that device it is scheduled for delivery again
  exactly when it is in the result of the query, the 20 newest commands of the device
  that are not done: always when the device has at most 20 such commands, and never when
  20 of them are newer than it.
\<close>

theorem C9_failed_command_stays_candidate:
  assumes "reachable b"
    and "find (\<lambda>c. cid c = i) (docs b) = Some c"
    and "ack_commandId a = Some i" and "i \<noteq> []"
    and "ack_success a = False"
    and "norm rawId = Some (deviceId c)" and "deviceId c \<noteq> []"
  shows "find (\<lambda>c. cid c = i) (docs (fst (command_ack b t u (Some a)))) = Some (ack_update a t u c)
       \<and> cmd_done (ack_update a t u c) = False
       \<and> state_of (ack_update a t u c) = Failed
       \<and> ack_update a t u c \<in> set (filter (matches_pending (deviceId c))
                                         (docs (fst (command_ack b t u (Some a)))))
       \<and> ((\<exists>k < 20. SetTimeout (k * 2000)
                        (SendPending \<lparr>cmd = ack_update a t u c, urgent = True, pending = True\<rparr>)
                      \<in> set (snd (register_device norm (fst (command_ack b t u (Some a)))
                                    now s rawId)))
            \<longleftrightarrow> ack_update a t u c
                  \<in> set (pendingCommands (docs (fst (command_ack b t u (Some a)))) (deviceId c)))
       \<and> (length (filter (matches_pending (deviceId c)) (docs (fst (command_ack b t u (Some a)))))
             \<le> 20 \<longrightarrow>
           ack_update a t u c
             \<in> set (pendingCommands (docs (fst (command_ack b t u (Some a)))) (deviceId c)))
       \<and> (20 \<le> length (filter (\<lambda>x. matches_pending (deviceId c) x \<and> createdAt c < createdAt x)
                                (docs (fst (command_ack b t u (Some a))))) \<longrightarrow>
           ack_update a t u c
             \<notin> set (pendingCommands (docs (fst (command_ack b t u (Some a)))) (deviceId c)))"
proof -
  let ?b = "fst (command_ack b t u (Some a))"
  let ?c = "ack_update a t u c"
  have b: "?b = b\<lparr>docs := update_first i (ack_update a t u) (docs b)\<rparr>"
    by (simp add: command_ack_known [OF assms(1,3,4)])
  have 1: "find (\<lambda>c. cid c = i) (docs ?b) = Some ?c"
    using assms(2) by (simp add: b find_update_first)
  have 2: "cmd_done ?c = False" using assms(5) by (simp add: ack_update_def)
  have 3: "state_of ?c = Failed" using assms(5) by (simp add: state_of_ack_update)
  have m: "matches_pending (deviceId c) ?c"
    using 2 by (simp add: matches_pending_def) (simp add: ack_update_def)
  have 4: "?c \<in> set (filter (matches_pending (deviceId c)) (docs ?b))"
    using in_update_first [OF assms(2)] m by (simp add: b)
  have r: "reachable ?b" using assms(1) by simp
  have 5: "(\<exists>k < 20. SetTimeout (k * 2000)
                         (SendPending \<lparr>cmd = ?c, urgent = True, pending = True\<rparr>)
                      \<in> set (snd (register_device norm ?b now s rawId)))
            \<longleftrightarrow> ?c \<in> set (pendingCommands (docs ?b) (deviceId c))"
    by (rule scheduled_iff_in_query [of norm rawId "deviceId c", OF assms(6,7) r])
  have 6: "?c \<in> set (pendingCommands (docs ?b) (deviceId c))"
    if le: "length (filter (matches_pending (deviceId c)) (docs ?b)) \<le> 20"
    using 4 pendingCommands_all [OF le] by simp
  have t: "createdAt ?c = createdAt c" by (simp add: ack_update_def)
  have 7: "?c \<notin> set (pendingCommands (docs ?b) (deviceId c))"
    if ge: "20 \<le> length (filter (\<lambda>x. matches_pending (deviceId c) x \<and> createdAt c < createdAt x)
                                 (docs ?b))"
    using pendingCommands_excludes [of "deviceId c" ?c "docs ?b"] ge t by simp
  show ?thesis using 1 2 3 4 5 6 7 by blast
qed

text \<open>
  The command \<open>c2\<close> of \<open>D1\<close> is reported as failed at 100; the device has three commands
  that are not done, and when connection \<open>B\<close> then registers as \<open>" d1 "\<close> the failed one is
  scheduled again.
\<close>

theorem C9_witness:
  "reachable (store ex_world)
   \<and> find (\<lambda>c. cid c = id_c2) (docs (store ex_world)) = Some (ex_cmd id_c2 ''D1'' 20)
   \<and> ack_commandId (ex_ack id_c2 False) = Some id_c2
   \<and> ack_success (ex_ack id_c2 False) = False
   \<and> normalizeDeviceId '' d1 '' = Some (deviceId (ex_cmd id_c2 ''D1'' 20))
   \<and> length (filter (matches_pending (deviceId (ex_cmd id_c2 ''D1'' 20)))
               (docs (fst (command_ack (store ex_world) 100 101 (Some (ex_ack id_c2 False))))))
       \<le> 20
   \<and> state_of (ack_update (ex_ack id_c2 False) 100 101 (ex_cmd id_c2 ''D1'' 20)) = Failed
   \<and> (\<exists>k < 20. SetTimeout (k * 2000)
                   (SendPending \<lparr>cmd = ack_update (ex_ack id_c2 False) 100 101
                                          (ex_cmd id_c2 ''D1'' 20),
                                  urgent = True, pending = True\<rparr>)
                \<in> set (snd (register_device normalizeDeviceId
                               (fst (command_ack (store ex_world) 100 101
                                       (Some (ex_ack id_c2 False))))
                               200 (ex_socket ''B'' [''B'', ''X''] (Some ''X'')) '' d1 '')))"
proof -
  have r: "reachable (store ex_world)" by (simp add: ex_world_def ex_db_def)
  have f: "find (\<lambda>c. cid c = id_c2) (docs (store ex_world)) = Some (ex_cmd id_c2 ''D1'' 20)"
    by (simp add: ex_world_def ex_db_def ex_cmd_def)
  have a: "ack_commandId (ex_ack id_c2 False) = Some id_c2" by (simp add: ex_ack_def)
  have k: "ack_success (ex_ack id_c2 False) = False" by (simp add: ex_ack_def)
  have n: "normalizeDeviceId '' d1 '' = Some (deviceId (ex_cmd id_c2 ''D1'' 20))" by code_simp
  have d: "deviceId (ex_cmd id_c2 ''D1'' 20) \<noteq> []" by (simp add: ex_cmd_def)
  have l: "length (filter (matches_pending (deviceId (ex_cmd id_c2 ''D1'' 20)))
               (docs (fst (command_ack (store ex_world) 100 101 (Some (ex_ack id_c2 False))))))
       \<le> 20"
    by code_simp
  show ?thesis
    using r f a k n l
      C9_failed_command_stays_candidate
        [where norm = normalizeDeviceId, OF r f a _ k n d,
         of 100 101 200 "ex_socket ''B'' [''B'', ''X''] (Some ''X'')"]
    by blast
qed

text \<open>
  The claim as stated fails. In the store with the backlog, \<open>c7\<close> is the oldest of 21
  commands of \<open>D1\<close> that are not done. It is reported as failed at 100: it is still the
  first stored command, it is failed, and it matches the pending filter. When connection
  \<open>B\<close> then registers as \<open>" d1 "\<close>, the commands scheduled are the twenty created at 20
  down to 1; the failed command, created at 0, is not among them and is not delivered
  again.
\<close>

theorem C9_counterexample:
  "cid (hd (docs (fst (command_ack ex_db_full 100 101 (Some (ex_ack id_c7 False)))))) = id_c7
   \<and> state_of (hd (docs (fst (command_ack ex_db_full 100 101 (Some (ex_ack id_c7 False))))))
       = Failed
   \<and> matches_pending ''D1''
         (hd (docs (fst (command_ack ex_db_full 100 101 (Some (ex_ack id_c7 False))))))
   \<and> map createdAt
         (scheduled_commands
            (snd (register_device normalizeDeviceId
                    (fst (command_ack ex_db_full 100 101 (Some (ex_ack id_c7 False))))
                    200 (ex_socket ''B'' [''B''] None) '' d1 '')))
       = [20, 19, 18, 17, 16, 15, 14, 13, 12, 11, 10, 9, 8, 7, 6, 5, 4, 3, 2, 1]
   \<and> hd (docs (fst (command_ack ex_db_full 100 101 (Some (ex_ack id_c7 False)))))
       \<notin> set (scheduled_commands
                 (snd (register_device normalizeDeviceId
                         (fst (command_ack ex_db_full 100 101 (Some (ex_ack id_c7 False))))
                         200 (ex_socket ''B'' [''B''] None) '' d1 '')))"
proof -
  let ?c = "ack_update (ex_ack id_c7 False) 100 101 (ex_cmd id_c7 ''D1'' 0)"
  let ?b = "fst (command_ack ex_db_full 100 101 (Some (ex_ack id_c7 False)))"
  let ?acts = "snd (register_device normalizeDeviceId ?b 200 (ex_socket ''B'' [''B''] None) '' d1 '')"
  have b: "?b = ex_db (?c # ex_newer)"
    by (simp add: command_ack_def findByIdAndUpdate_def ex_db_full_def ex_db_def ex_ack_def
          ex_cmd_def)
  have d: "docs ?b = ?c # ex_newer" by (simp add: b ex_db_def)
  have h: "hd (docs ?b) = ?c" by (simp add: d)
  have 1: "cid ?c = id_c7" by (simp add: ex_cmd_def)
  have 2: "state_of ?c = Failed" by (simp add: state_of_ack_update ex_ack_def)
  have 3: "matches_pending ''D1'' ?c"
    by (simp add: matches_pending_def ack_update_def ex_ack_def ex_cmd_def)
  have n: "normalizeDeviceId '' d1 '' = Some ''D1''" by code_simp
  have r: "reachable ?b" by (simp add: b ex_db_def)
  have s: "scheduled_commands ?acts = pendingCommands (docs ?b) ''D1''"
    by (rule scheduled_commands_registered [of normalizeDeviceId _ "''D1''", OF n _ r]) simp
  have p: "map createdAt (pendingCommands (?c # ex_newer) ''D1'')
             = [20, 19, 18, 17, 16, 15, 14, 13, 12, 11, 10, 9, 8, 7, 6, 5, 4, 3, 2, 1]"
    by code_simp
  have 4: "map createdAt (scheduled_commands ?acts)
             = [20, 19, 18, 17, 16, 15, 14, 13, 12, 11, 10, 9, 8, 7, 6, 5, 4, 3, 2, 1]"
    unfolding s d by (rule p)
  have "createdAt ?c = 0" by (simp add: ack_update_def ex_cmd_def)
  then have "createdAt ?c \<notin> set (map createdAt (scheduled_commands ?acts))"
    unfolding 4 by simp
  then have nin: "createdAt ?c \<notin> createdAt ` set (scheduled_commands ?acts)"
    unfolding set_map .
  have 5: "?c \<notin> set (scheduled_commands ?acts)"
  proof
    assume "?c \<in> set (scheduled_commands ?acts)"
    then have "createdAt ?c \<in> createdAt ` set (scheduled_commands ?acts)" by (rule imageI)
    with nin show False by (rule notE)
  qed
  show ?thesis unfolding h by (intro conjI 1 2 3 4 5)
qed

subsection \<open>C10: an acknowledgment without a command id\<close>

text \<open>
  Claim C10. A command-ack event whose \<open>commandId\<close> is absent or falsy leaves the whole
  server as it was (the store is not updated, the connections are untouched) and does
  nothing else: nothing is emitted and no error is logged.
\<close>

theorem C10_ack_without_command_id:
  assumes "\<not> truthy (ack_commandId a)"
  shows "step norm w (CommandAck i (Some a) t_exec t_upd) = (w, [])"
  using assms
  by (auto simp: step_def command_ack_def truthy_def split: option.splits)

text \<open>An acknowledgment with the empty string as command id, sent by connection \<open>A\<close>.\<close>

theorem C10_witness:
  "\<not> truthy (ack_commandId (ex_ack '''' True))
   \<and> step normalizeDeviceId ex_world (CommandAck ''A'' (Some (ex_ack '''' True)) 100 101)
       = (ex_world, [])"
proof -
  have h: "\<not> truthy (ack_commandId (ex_ack '''' True))" by (simp add: ex_ack_def truthy_def)
  show ?thesis using h C10_ack_without_command_id [OF h] by simp
qed

end
